theory Spec2Isabelle
  imports Main "HOL-Library.Word" "HOL-Library.Multiset"
begin

section \<open>Strings of the source language\<close>

text \<open>
  A string of the source is a sequence of UTF-16 code units. The literals of the source
  are plain ASCII and are written through \<open>js\<close>. A string is falsy exactly when it is
  empty.
\<close>

type_synonym code_unit = "16 word"
type_synonym jsstring = "code_unit list"

definition js :: "string \<Rightarrow> jsstring" where
  "js s = map of_char s"

text \<open>
  The code units that \<open>String.prototype.trim\<close> removes: the white space and the line
  terminators of the language.
\<close>

definition isWhiteSpace :: "code_unit \<Rightarrow> bool" where
  "isWhiteSpace c =
     (c = 0x0009 \<or> c = 0x000A \<or> c = 0x000B \<or> c = 0x000C \<or> c = 0x000D \<or> c = 0x0020 \<or>
      c = 0x00A0 \<or> c = 0x1680 \<or> (0x2000 \<le> c \<and> c \<le> 0x200A) \<or> c = 0x2028 \<or>
      c = 0x2029 \<or> c = 0x202F \<or> c = 0x205F \<or> c = 0x3000 \<or> c = 0xFEFF)"

definition trim :: "jsstring \<Rightarrow> jsstring" where
  "trim s = rev (dropWhile isWhiteSpace (rev (dropWhile isWhiteSpace s)))"

text \<open>\<open>Date.now() + 1 + ''\<close> renders an integer in decimal; epoch milliseconds are far
  below the magnitude at which the language switches to exponent notation.\<close>

fun digitsOf :: "nat \<Rightarrow> jsstring" where
  "digitsOf n =
     (if n < 10 then [of_nat (48 + n)] else digitsOf (n div 10) @ [of_nat (48 + n mod 10)])"

declare digitsOf.simps [simp del]

definition numberToString :: "int \<Rightarrow> jsstring" where
  "numberToString i = (if i < 0 then 0x2D # digitsOf (nat (- i)) else digitsOf (nat i))"

section \<open>Data model\<close>

datatype sender = AI | User

text \<open>
  \<open>Message\<close> of the source. The fields \<open>id\<close> and \<open>text\<close> carry a suffix because the
  plain names are taken. \<open>parentId\<close> is \<open>None\<close> for both \<open>null\<close> and an absent
  property (the code only ever tests it for truthiness), \<open>isCode\<close> is \<open>None\<close> when
  the property is absent, and a timestamp is the epoch time in milliseconds.
\<close>

record Message =
  id_m :: jsstring
  text_m :: jsstring
  sender :: sender
  parentId :: "jsstring option"
  timestamp :: int
  isCode :: "bool option"

text \<open>\<open>Partial<Message>\<close>: every field may be absent.\<close>

record PartialMessage =
  id_opt :: "jsstring option"
  text_opt :: "jsstring option"
  sender_opt :: "sender option"
  parentId_opt :: "jsstring option"
  timestamp_opt :: "int option"
  isCode_opt :: "bool option"

text \<open>The data fields of the store (its functions are the definitions below).\<close>

record MessageState =
  messages :: "Message list"
  input :: jsstring
  showModal :: bool
  isFocused :: bool
  isLoading :: bool
  currentStreamingMessage :: "jsstring option"
  latestAIMessageId :: "jsstring option"

definition initialState :: MessageState where
  "initialState =
     \<lparr>messages = [], input = [], showModal = False, isFocused = False, isLoading = False,
      currentStreamingMessage = None, latestAIMessageId = None\<rparr>"

definition emptyPartial :: PartialMessage where
  "emptyPartial =
     \<lparr>id_opt = None, text_opt = None, sender_opt = None, parentId_opt = None,
      timestamp_opt = None, isCode_opt = None\<rparr>"

section \<open>The store's setters and \<open>addMessage\<close>\<close>

definition setInput :: "jsstring \<Rightarrow> MessageState \<Rightarrow> MessageState" where
  "setInput t s = s\<lparr>input := t\<rparr>"

definition setIsLoading :: "bool \<Rightarrow> MessageState \<Rightarrow> MessageState" where
  "setIsLoading loading s = s\<lparr>isLoading := loading\<rparr>"

definition setIsFocused :: "bool \<Rightarrow> MessageState \<Rightarrow> MessageState" where
  "setIsFocused focused s = s\<lparr>isFocused := focused\<rparr>"

definition setShowModal :: "bool \<Rightarrow> MessageState \<Rightarrow> MessageState" where
  "setShowModal v s = s\<lparr>showModal := v\<rparr>"

text \<open>\<open>x || d\<close> on an optional string: the default is taken when \<open>x\<close> is absent or
  empty.\<close>

definition stringOr :: "jsstring option \<Rightarrow> jsstring \<Rightarrow> jsstring" where
  "stringOr x d = (case x of None \<Rightarrow> d | Some t \<Rightarrow> if t \<noteq> [] then t else d)"

text \<open>\<open>messageData.parentId || null\<close>.\<close>

definition stringOrNull :: "jsstring option \<Rightarrow> jsstring option" where
  "stringOrNull x = (case x of None \<Rightarrow> None | Some t \<Rightarrow> if t \<noteq> [] then Some t else None)"

text \<open>
  The record that \<open>addMessage\<close> builds. \<open>uuid\<close> is what \<open>uuidv4()\<close> returns and \<open>now\<close>
  what \<open>new Date()\<close> reads; both are consulted only when the field is missing.
\<close>

definition fillMessage :: "PartialMessage \<Rightarrow> jsstring \<Rightarrow> int \<Rightarrow> Message" where
  "fillMessage messageData uuid now =
     \<lparr>id_m = stringOr (id_opt messageData) uuid,
      text_m = stringOr (text_opt messageData) [],
      sender = (case sender_opt messageData of None \<Rightarrow> User | Some x \<Rightarrow> x),
      parentId = stringOrNull (parentId_opt messageData),
      timestamp = (case timestamp_opt messageData of None \<Rightarrow> now | Some t \<Rightarrow> t),
      isCode = Some (case isCode_opt messageData of None \<Rightarrow> False | Some b \<Rightarrow> b)\<rparr>"

text \<open>\<open>addMessage\<close> returns the message and the updated store.\<close>

definition addMessage ::
  "PartialMessage \<Rightarrow> jsstring \<Rightarrow> int \<Rightarrow> MessageState \<Rightarrow> Message \<times> MessageState" where
  "addMessage messageData uuid now s =
     (let message = fillMessage messageData uuid now
      in (message,
          s\<lparr>messages := messages s @ [message],
            latestAIMessageId :=
              (if sender message = User then Some (id_m message) else latestAIMessageId s)\<rparr>))"

section \<open>The cleanup transform\<close>

text \<open>
  \<open>beautifyPlainText\<close> applies two global regular-expression replacements, each
  putting the captured group in place of the match. The dot of these expressions matches
  any code unit except a line terminator, the star-quantifier is lazy, and a global
  replacement resumes after the end of the previous match.
\<close>

definition star :: code_unit where
  "star = 0x2A"

definition isLineTerminator :: "code_unit \<Rightarrow> bool" where
  "isLineTerminator c = (c = 0x000A \<or> c = 0x000D \<or> c = 0x2028 \<or> c = 0x2029)"

text \<open>
  \<open>lazyDouble\<close> runs \<open>(.*?)\*\*\<close> on the text after an opening pair of asterisks: it
  returns the captured group and the text after the closing pair, and fails when a line
  terminator or the end of the text comes first. \<open>lazySingle\<close> does the same for
  \<open>(.*?)\*\<close>.
\<close>

fun lazyDouble :: "jsstring \<Rightarrow> (jsstring \<times> jsstring) option" where
  "lazyDouble (a # b # r) =
     (if a = star \<and> b = star then Some ([], r)
      else if isLineTerminator a then None
      else map_option (\<lambda>(c, r'). (a # c, r')) (lazyDouble (b # r)))"
| "lazyDouble [a] = None"
| "lazyDouble [] = None"

fun lazySingle :: "jsstring \<Rightarrow> (jsstring \<times> jsstring) option" where
  "lazySingle (a # r) =
     (if a = star then Some ([], r)
      else if isLineTerminator a then None
      else map_option (\<lambda>(c, r'). (a # c, r')) (lazySingle r))"
| "lazySingle [] = None"

lemma lazyDouble_shorter: "lazyDouble t = Some (c, r) \<Longrightarrow> length r < length t"
  by (induction t arbitrary: c rule: lazyDouble.induct) (auto split: if_splits)

lemma lazySingle_shorter: "lazySingle t = Some (c, r) \<Longrightarrow> length r < length t"
  by (induction t arbitrary: c rule: lazySingle.induct) (auto split: if_splits)

text \<open>\<open>text.replace(/\*\*(.*?)\*\*/g, '$1')\<close>.\<close>

function replaceDouble :: "jsstring \<Rightarrow> jsstring" where
  "replaceDouble (a # b # r) =
     (if a = star \<and> b = star
      then (case lazyDouble r of
              Some (c, r') \<Rightarrow> c @ replaceDouble r'
            | None \<Rightarrow> a # replaceDouble (b # r))
      else a # replaceDouble (b # r))"
| "replaceDouble [a] = [a]"
| "replaceDouble [] = []"
  by pat_completeness auto
termination
  by (relation "measure length") (auto dest: lazyDouble_shorter)

text \<open>\<open>clean.replace(/\*(.*?)\*/g, '$1')\<close>.\<close>

function replaceSingle :: "jsstring \<Rightarrow> jsstring" where
  "replaceSingle (a # r) =
     (if a = star
      then (case lazySingle r of
              Some (c, r') \<Rightarrow> c @ replaceSingle r'
            | None \<Rightarrow> a # replaceSingle r)
      else a # replaceSingle r)"
| "replaceSingle [] = []"
  by pat_completeness auto
termination
  by (relation "measure length") (auto dest: lazySingle_shorter)

definition beautifyPlainText :: "jsstring \<Rightarrow> jsstring" where
  "beautifyPlainText t = replaceSingle (replaceDouble t)"

section \<open>The streaming response handler\<close>

text \<open>
  What the external source delivers after the prompt is submitted: fragments in order,
  ended by normal completion or by a throw. A failed submission is a stream that throws
  before its first fragment; a fragment whose \<open>text()\<close> throws is a throw at that
  point.
\<close>

datatype responseStream = StreamEnd | StreamThrow | Chunk jsstring responseStream

text \<open>How an asynchronous function settles; the store it leaves is kept in both cases.\<close>

datatype 'a promise = Fulfilled 'a | Rejected 'a

definition instruction :: jsstring where
  "instruction = js ''Your name is Juggernaut, in short Jugg'' @ [0x22]"

definition errorText :: jsstring where
  "errorText = js ''Error: Could not process your request.''"

text \<open>
  The first update of \<open>sendToGeminiStream\<close>. \<open>dateNow\<close> is the reading of
  \<open>Date.now()\<close> and \<open>newDate\<close> the one of \<open>new Date()\<close>. The object literal has no
  \<open>isCode\<close> property.
\<close>

definition startStreaming :: "int \<Rightarrow> int \<Rightarrow> MessageState \<Rightarrow> MessageState" where
  "startStreaming dateNow newDate s =
     (let aiMessageId = numberToString (dateNow + 1)
      in s\<lparr>messages := messages s @
              [\<lparr>id_m = aiMessageId, text_m = [], sender = AI,
                parentId = latestAIMessageId s, timestamp = newDate, isCode = None\<rparr>],
            currentStreamingMessage := Some aiMessageId,
            latestAIMessageId := Some aiMessageId\<rparr>)"

text \<open>The update made for one fragment.\<close>

definition appendChunk :: "jsstring \<Rightarrow> MessageState \<Rightarrow> MessageState" where
  "appendChunk textChunk s =
     s\<lparr>messages :=
         map (\<lambda>msg. if Some (id_m msg) = currentStreamingMessage s
                     then msg\<lparr>text_m := text_m msg @ beautifyPlainText textChunk\<rparr>
                     else msg)
           (messages s)\<rparr>"

text \<open>The update made in the \<open>catch\<close> block.\<close>

definition replaceWithError :: "MessageState \<Rightarrow> MessageState" where
  "replaceWithError s =
     s\<lparr>messages :=
         map (\<lambda>msg. if Some (id_m msg) = currentStreamingMessage s
                     then msg\<lparr>text_m := errorText\<rparr>
                     else msg)
           (messages s)\<rparr>"

text \<open>The \<open>for await\<close> loop; the flag tells whether it was left by a throw.\<close>

fun consumeStream :: "responseStream \<Rightarrow> MessageState \<Rightarrow> bool \<times> MessageState" where
  "consumeStream StreamEnd s = (False, s)"
| "consumeStream StreamThrow s = (True, s)"
| "consumeStream (Chunk textChunk rest) s = consumeStream rest (appendChunk textChunk s)"

text \<open>
  \<open>generateContentStream\<close> stands for the external model: it answers a prompt with a
  stream. Every statement that can throw is inside the \<open>try\<close>, so the promise is
  always fulfilled. The handler is run to its end in one go: no other operation of the store
  takes place between two of its updates.
\<close>

definition sendToGeminiStream ::
  "jsstring \<Rightarrow> int \<Rightarrow> int \<Rightarrow> (jsstring \<Rightarrow> responseStream) \<Rightarrow> MessageState
     \<Rightarrow> MessageState promise" where
  "sendToGeminiStream userMessage dateNow newDate generateContentStream s =
     (let s1 = startStreaming dateNow newDate s;
          (threw, s2) = consumeStream (generateContentStream (instruction @ userMessage)) s1;
          s3 = (if threw then replaceWithError s2 else s2)
      in Fulfilled (s3\<lparr>isLoading := False, currentStreamingMessage := None\<rparr>))"

section \<open>The request orchestrators\<close>

text \<open>
  What the outside world supplies during one run of an orchestrator: the identifier and
  the clock reading for the user message, the two clock readings and the model used by
  the streaming handler, and the identifier and clock reading for the fallback message.
\<close>

record Environment =
  uuidUser :: jsstring
  dateUser :: int
  dateNow :: int
  dateAI :: int
  generateContentStream :: "jsstring \<Rightarrow> responseStream"
  uuidFallback :: jsstring
  dateFallback :: int

definition fallbackText :: jsstring where
  "fallbackText = js ''Sorry, I encountered an error processing your request.''"

definition handleAIResponse :: "jsstring \<Rightarrow> Environment \<Rightarrow> MessageState \<Rightarrow> MessageState" where
  "handleAIResponse userMessage env s =
     (if trim userMessage = [] then s
      else
        let (message, s1) =
              addMessage
                \<lparr>id_opt = None, text_opt = Some userMessage, sender_opt = Some User,
                 parentId_opt = None, timestamp_opt = None, isCode_opt = Some False\<rparr>
                (uuidUser env) (dateUser env) s;
            s2 = setIsLoading True s1
        in case sendToGeminiStream userMessage (dateNow env) (dateAI env)
                  (generateContentStream env) s2 of
             Fulfilled s3 \<Rightarrow> s3
           | Rejected s3 \<Rightarrow>
               setIsLoading False
                 (snd (addMessage
                   \<lparr>id_opt = None, text_opt = Some fallbackText, sender_opt = Some AI,
                    parentId_opt = Some (id_m message), timestamp_opt = None,
                    isCode_opt = Some False\<rparr>
                   (uuidFallback env) (dateFallback env) s3)))"

definition replyPrompt :: "jsstring \<Rightarrow> jsstring" where
  "replyPrompt t = js ''Reply to message: '' @ t"

definition replyToMessage ::
  "jsstring \<Rightarrow> jsstring \<Rightarrow> Environment \<Rightarrow> MessageState \<Rightarrow> MessageState" where
  "replyToMessage parent t env s =
     (if trim t = [] then s
      else
        let (userMessage, s1) =
              addMessage
                \<lparr>id_opt = None, text_opt = Some t, sender_opt = Some User,
                 parentId_opt = Some parent, timestamp_opt = None, isCode_opt = Some False\<rparr>
                (uuidUser env) (dateUser env) s;
            s2 = setIsLoading True s1
        in case sendToGeminiStream (replyPrompt t) (dateNow env) (dateAI env)
                  (generateContentStream env) s2 of
             Fulfilled s3 \<Rightarrow> s3
           | Rejected s3 \<Rightarrow>
               setIsLoading False
                 (snd (addMessage
                   \<lparr>id_opt = None, text_opt = Some fallbackText, sender_opt = Some AI,
                    parentId_opt = Some (id_m userMessage), timestamp_opt = None,
                    isCode_opt = Some False\<rparr>
                   (uuidFallback env) (dateFallback env) s3)))"

definition sendMessage :: "Environment \<Rightarrow> MessageState \<Rightarrow> MessageState" where
  "sendMessage env s =
     (if trim (input s) = [] then s
      else let messageText = input s in handleAIResponse messageText env (setInput [] s))"

section \<open>The tree builder\<close>

text \<open>
  The nodes of the source are mutable objects that the lookup table, the root list and the
  reply lists share by reference. The model keeps them in a heap: the node made for the
  message at position \<open>i\<close> of the input lives at address \<open>i\<close>, and root and reply lists
  hold addresses.
\<close>

record MessageNode =
  message :: Message
  replies :: "nat list"

type_synonym nodeHeap = "MessageNode list"
type_synonym nodeMap = "jsstring \<rightharpoonup> nat"

text \<open>First pass: one new node per message; a later message with the same id takes over
  the entry of the lookup table.\<close>

fun initNodes :: "Message list \<Rightarrow> nodeHeap \<times> nodeMap \<Rightarrow> nodeHeap \<times> nodeMap" where
  "initNodes [] st = st"
| "initNodes (m # ms) (h, nm) =
     initNodes ms (h @ [\<lparr>message = m, replies = []\<rparr>], nm(id_m m \<mapsto> length h))"

text \<open>\<open>message.parentId && nodeMap.has(message.parentId)\<close>: the empty string is falsy.\<close>

definition hasParent :: "nodeMap \<Rightarrow> Message \<Rightarrow> bool" where
  "hasParent nm m =
     (case parentId m of None \<Rightarrow> False | Some p \<Rightarrow> p \<noteq> [] \<and> nm p \<noteq> None)"

definition pushReply :: "nat \<Rightarrow> nat \<Rightarrow> nodeHeap \<Rightarrow> nodeHeap" where
  "pushReply parentNode node h =
     h[parentNode := (h ! parentNode)\<lparr>replies := replies (h ! parentNode) @ [node]\<rparr>]"

text \<open>
  Second pass, over the finished lookup table. The two lookups marked as non-null in the
  source are lookups of keys that the first pass has entered; should one be missing, the
  model stops with \<open>None\<close>.
\<close>

fun linkNodes ::
  "nodeMap \<Rightarrow> Message list \<Rightarrow> nat list \<times> nodeHeap \<Rightarrow> (nat list \<times> nodeHeap) option" where
  "linkNodes nm [] st = Some st"
| "linkNodes nm (m # ms) (roots, h) =
     (case nm (id_m m) of
        None \<Rightarrow> None
      | Some node \<Rightarrow>
          if hasParent nm m
          then (case nm (the (parentId m)) of
                  None \<Rightarrow> None
                | Some parentNode \<Rightarrow> linkNodes nm ms (roots, pushReply parentNode node h))
          else linkNodes nm ms (roots @ [node], h))"

text \<open>The result is the root list together with the heap its addresses point into.\<close>

definition buildmessageTree :: "Message list \<Rightarrow> (nat list \<times> nodeHeap) option" where
  "buildmessageTree msgs =
     (let (h, nm) = initNodes msgs ([], Map.empty) in linkNodes nm msgs ([], h))"

section \<open>Observations used in the statements\<close>

text \<open>The fragments a stream delivers, and whether it ends by a throw.\<close>

fun fragmentsOf :: "responseStream \<Rightarrow> jsstring list" where
  "fragmentsOf StreamEnd = []"
| "fragmentsOf StreamThrow = []"
| "fragmentsOf (Chunk textChunk rest) = textChunk # fragmentsOf rest"

fun throws :: "responseStream \<Rightarrow> bool" where
  "throws StreamEnd = False"
| "throws StreamThrow = True"
| "throws (Chunk textChunk rest) = throws rest"

text \<open>Two messages that agree on every field other than the text.\<close>

definition sameButText :: "Message \<Rightarrow> Message \<Rightarrow> bool" where
  "sameButText m m' =
     (id_m m' = id_m m \<and> sender m' = sender m \<and> parentId m' = parentId m \<and>
      timestamp m' = timestamp m \<and> isCode m' = isCode m)"

text \<open>
  What the streaming handler has done to a message once the stream \<open>r\<close> is over, for the
  identifier \<open>aiMessageId\<close> it allocated; and the message it allocates.
\<close>

definition settle :: "responseStream \<Rightarrow> jsstring \<Rightarrow> Message \<Rightarrow> Message" where
  "settle r aiMessageId msg =
     (if id_m msg = aiMessageId
      then msg\<lparr>text_m := (if throws r then errorText
                            else text_m msg @ concat (map beautifyPlainText (fragmentsOf r)))\<rparr>
      else msg)"

definition newAIMessage :: "int \<Rightarrow> int \<Rightarrow> MessageState \<Rightarrow> Message" where
  "newAIMessage dNow nDate s =
     \<lparr>id_m = numberToString (dNow + 1), text_m = [], sender = AI,
      parentId = latestAIMessageId s, timestamp = nDate, isCode = None\<rparr>"

text \<open>A store in the middle of a stream: a user message and the reply being streamed.\<close>

definition twoMessages :: MessageState where
  "twoMessages =
     \<lparr>messages =
        [\<lparr>id_m = js ''u1'', text_m = js ''hi'', sender = User, parentId = None, timestamp = 5,
          isCode = Some False\<rparr>,
         \<lparr>id_m = js ''7'', text_m = js ''Hel'', sender = AI, parentId = Some (js ''u1''),
          timestamp = 6, isCode = None\<rparr>],
      input = [], showModal = False, isFocused = False, isLoading = True,
      currentStreamingMessage = Some (js ''7''), latestAIMessageId = Some (js ''7'')\<rparr>"

text \<open>The user message that \<open>handleAIResponse\<close> appends.\<close>

definition userMessageOf :: "jsstring \<Rightarrow> Environment \<Rightarrow> Message" where
  "userMessageOf userMessage env =
     \<lparr>id_m = uuidUser env, text_m = userMessage, sender = User, parentId = None,
      timestamp = dateUser env, isCode = Some False\<rparr>"

text \<open>
  Example environments and the store left by a first turn: the user says \<open>hi\<close>, the
  model answers \<open>Hello\<close>.
\<close>

definition demoEnv :: Environment where
  "demoEnv =
     \<lparr>uuidUser = js ''u9'', dateUser = 100, dateNow = 100, dateAI = 101,
      generateContentStream = (\<lambda>prompt. Chunk (js ''ok'') StreamEnd),
      uuidFallback = js ''u10'', dateFallback = 102\<rparr>"

definition firstEnv :: Environment where
  "firstEnv =
     \<lparr>uuidUser = js ''u1'', dateUser = 5, dateNow = 6, dateAI = 6,
      generateContentStream = (\<lambda>prompt. Chunk (js ''Hello'') StreamEnd),
      uuidFallback = js ''u2'', dateFallback = 8\<rparr>"

definition afterFirstTurn :: MessageState where
  "afterFirstTurn =
     \<lparr>messages =
        [\<lparr>id_m = js ''u1'', text_m = js ''hi'', sender = User, parentId = None, timestamp = 5,
          isCode = Some False\<rparr>,
         \<lparr>id_m = js ''7'', text_m = js ''Hello'', sender = AI, parentId = Some (js ''u1''),
          timestamp = 6, isCode = None\<rparr>],
      input = [], showModal = False, isFocused = False, isLoading = False,
      currentStreamingMessage = None, latestAIMessageId = Some (js ''7'')\<rparr>"

text \<open>
  For the tree builder. \<open>resolves\<close> says it in the words of the specification: the
  \<open>parentId\<close> of the message is set, to a non-empty string, and is the id of a message of
  the sequence. \<open>positions\<close> lists every place of the forest that holds a node: the
  entries of the root list and the entries of every reply list.
\<close>

definition resolves :: "Message list \<Rightarrow> Message \<Rightarrow> bool" where
  "resolves msgs m =
     (case parentId m of None \<Rightarrow> False | Some p \<Rightarrow> p \<noteq> [] \<and> p \<in> id_m ` set msgs)"

definition positions :: "nat list \<times> nodeHeap \<Rightarrow> nat list" where
  "positions t = fst t @ concat (map replies (snd t))"

text \<open>
  The address the lookup table holds for a message, and the address of the node it is
  linked under, if any.
\<close>

definition nodeOf :: "nodeMap \<Rightarrow> Message \<Rightarrow> nat" where
  "nodeOf nm m = (case nm (id_m m) of None \<Rightarrow> 0 | Some a \<Rightarrow> a)"

definition parentOf :: "nodeMap \<Rightarrow> Message \<Rightarrow> nat option" where
  "parentOf nm m = (if hasParent nm m then nm (the (parentId m)) else None)"

text \<open>
  Example sequences: a thread with two replies and a dangling reference, two messages with
  the same id, and a reply to a message whose id is the empty string.
\<close>

definition plainMessage :: "string \<Rightarrow> string option \<Rightarrow> Message" where
  "plainMessage i p =
     \<lparr>id_m = js i, text_m = js ''t'', sender = User, parentId = map_option js p, timestamp = 0,
      isCode = Some False\<rparr>"

definition threadMsgs :: "Message list" where
  "threadMsgs =
     [plainMessage ''a'' None, plainMessage ''b'' (Some ''a''), plainMessage ''c'' (Some ''zz''),
      plainMessage ''d'' (Some ''a'')]"

definition dupMsgs :: "Message list" where
  "dupMsgs = [plainMessage ''a'' None, (plainMessage ''a'' None)\<lparr>text_m := js ''second''\<rparr>]"

definition emptyIdMsgs :: "Message list" where
  "emptyIdMsgs = [plainMessage [] None, plainMessage ''b'' (Some [])]"

section \<open>The streaming handler in closed form\<close>

lemma consumeStream_eq:
  "consumeStream r s = (throws r, fold appendChunk (fragmentsOf r) s)"
  by (induction r arbitrary: s) simp_all

lemma fold_appendChunk:
  "fold appendChunk fs s =
     s\<lparr>messages :=
         map (\<lambda>msg. if Some (id_m msg) = currentStreamingMessage s
                     then msg\<lparr>text_m := text_m msg @ concat (map beautifyPlainText fs)\<rparr>
                     else msg)
           (messages s)\<rparr>"
proof (induction fs arbitrary: s)
  case Nil
  have H: "map (\<lambda>msg. if Some (id_m msg) = currentStreamingMessage s
                     then msg\<lparr>text_m := text_m msg @ concat (map beautifyPlainText [])\<rparr> else msg)
             (messages s) = messages s"
    by (rule map_idI) simp
  show ?case by (subst H) simp
next
  case (Cons f fs)
  show ?case
    apply (simp add: Cons.IH)
    apply (simp add: appendChunk_def o_def)
    done
qed

lemma sendToGeminiStream_eq:
  "sendToGeminiStream userMessage dNow nDate gen s =
     Fulfilled (s\<lparr>messages :=
                    map (settle (gen (instruction @ userMessage)) (numberToString (dNow + 1)))
                      (messages s @ [newAIMessage dNow nDate s]),
                  isLoading := False, currentStreamingMessage := None,
                  latestAIMessageId := Some (numberToString (dNow + 1))\<rparr>)"
proof (cases "throws (gen (instruction @ userMessage))")
  case True
  then show ?thesis
    by (simp add: sendToGeminiStream_def consumeStream_eq fold_appendChunk startStreaming_def
        replaceWithError_def settle_def [abs_def] newAIMessage_def Let_def o_def)
next
  case False
  then show ?thesis
    by (simp add: sendToGeminiStream_def consumeStream_eq fold_appendChunk startStreaming_def
        replaceWithError_def settle_def [abs_def] newAIMessage_def Let_def o_def)
qed


lemma nth_settled_new:
  "map (settle r a) (ms @ [m]) ! length ms = settle r a m"
  by (simp add: nth_append)

lemma settle_fields:
  "id_m (settle r a m) = id_m m" "sender (settle r a m) = sender m"
  "parentId (settle r a m) = parentId m" "timestamp (settle r a m) = timestamp m"
  "isCode (settle r a m) = isCode m"
  by (simp_all add: settle_def)

lemma map_id_settle: "map id_m (map (settle r a) ms) = map id_m ms"
  by (simp add: settle_fields o_def)

lemma settle_other: "id_m m \<noteq> a \<Longrightarrow> settle r a m = m"
  by (simp add: settle_def)

lemma nth_settled_pair:
  "map f (ms @ [a, b]) ! length ms = f a" "map f (ms @ [a, b]) ! Suc (length ms) = f b"
  by (simp_all add: nth_append)

section \<open>The cleanup transform on plain emphasis\<close>

lemma lazyDouble_plain:
  "star \<notin> set c \<Longrightarrow> \<forall>x\<in>set c. \<not> isLineTerminator x \<Longrightarrow>
     lazyDouble (c @ star # star # r) = Some (c, r)"
proof (induction c)
  case Nil
  then show ?case by simp
next
  case (Cons x c)
  then obtain y ys where "c @ star # star # r = y # ys"
    by (cases c) auto
  with Cons show ?case by auto
qed

lemma lazySingle_plain:
  "star \<notin> set c \<Longrightarrow> \<forall>x\<in>set c. \<not> isLineTerminator x \<Longrightarrow>
     lazySingle (c @ star # r) = Some (c, r)"
  by (induction c) auto

lemma replaceDouble_plain: "star \<notin> set c \<Longrightarrow> replaceDouble c = c"
  by (induction c rule: replaceDouble.induct) auto

lemma replaceSingle_plain: "star \<notin> set c \<Longrightarrow> replaceSingle c = c"
  by (induction c rule: replaceSingle.induct) auto

lemma replaceDouble_closing: "star \<notin> set c \<Longrightarrow> replaceDouble (c @ [star]) = c @ [star]"
proof (induction c)
  case Nil
  then show ?case by simp
next
  case (Cons x c)
  then obtain y ys where "c @ [star] = y # ys"
    by (cases c) auto
  with Cons show ?case by auto
qed

lemma replaceDouble_single:
  "star \<notin> set c \<Longrightarrow> replaceSingle (replaceDouble (star # c @ [star])) = replaceSingle (star # c @ [star])"
proof (cases c)
  case Nil
  then show ?thesis by simp
next
  case (Cons x c')
  assume "star \<notin> set c"
  with Cons replaceDouble_closing [of c] show ?thesis by auto
qed

lemma beautifyPlainText_strips:
  assumes "star \<notin> set c" and "\<forall>x\<in>set c. \<not> isLineTerminator x"
  shows "beautifyPlainText (star # star # c @ [star, star]) = c"
    and "beautifyPlainText (star # c @ [star]) = c"
proof -
  from assms lazyDouble_plain [of c "[]"] show "beautifyPlainText (star # star # c @ [star, star]) = c"
    by (simp add: beautifyPlainText_def replaceSingle_plain)
  from assms lazySingle_plain [of c "[]"] show "beautifyPlainText (star # c @ [star]) = c"
    by (simp add: beautifyPlainText_def replaceDouble_single)
qed

lemma beautifyPlainText_plain: "star \<notin> set c \<Longrightarrow> beautifyPlainText c = c"
  by (simp add: beautifyPlainText_def replaceDouble_plain replaceSingle_plain)

lemma star_not_terminator: "\<not> isLineTerminator star"
  by (simp add: isLineTerminator_def star_def)

lemma replaceDouble_prefix: "star \<notin> set p \<Longrightarrow> replaceDouble (p @ t) = p @ replaceDouble t"
proof (induction p)
  case Nil
  then show ?case by simp
next
  case (Cons x p)
  show ?case
  proof (cases "p @ t")
    case Nil
    then show ?thesis by simp
  next
    case (Cons y ys)
    with Cons.prems Cons.IH show ?thesis by auto
  qed
qed

lemma replaceSingle_prefix: "star \<notin> set p \<Longrightarrow> replaceSingle (p @ t) = p @ replaceSingle t"
  by (induction p) auto

lemma beautifyPlainText_prefix:
  "star \<notin> set p \<Longrightarrow> beautifyPlainText (p @ t) = p @ beautifyPlainText t"
  by (simp add: beautifyPlainText_def replaceDouble_prefix replaceSingle_prefix)

lemma lazyDouble_prefix:
  "star \<notin> set a \<Longrightarrow> \<forall>x\<in>set a. \<not> isLineTerminator x \<Longrightarrow>
     lazyDouble (a @ u) = map_option (\<lambda>(c, r). (a @ c, r)) (lazyDouble u)"
proof (induction a)
  case Nil
  then show ?case by (simp add: option.map_ident split_def)
next
  case (Cons x a)
  show ?case
  proof (cases "a @ u")
    case Nil
    then show ?thesis by simp
  next
    case (Cons y ys)
    with Cons.prems Cons.IH show ?thesis
      by (auto simp: option.map_comp o_def split_def)
  qed
qed

lemma lazyDouble_blocked:
  "star \<notin> set a \<Longrightarrow> \<exists>x\<in>set a. isLineTerminator x \<Longrightarrow> lazyDouble (a @ r) = None"
proof (induction a)
  case Nil
  then show ?case by simp
next
  case (Cons x a)
  show ?case
  proof (cases "a @ r")
    case Nil
    then show ?thesis by simp
  next
    case (Cons y ys)
    with Cons.prems Cons.IH show ?thesis by auto
  qed
qed

lemma lazySingle_blocked:
  "star \<notin> set c \<Longrightarrow> \<exists>x\<in>set c. isLineTerminator x \<Longrightarrow> lazySingle (c @ r) = None"
  by (induction c) auto

lemma lazySingle_none: "star \<notin> set b \<Longrightarrow> lazySingle b = None"
  by (induction b) auto

lemma beautifyPlainText_double_then:
  assumes "star \<notin> set c" and "\<forall>x\<in>set c. \<not> isLineTerminator x"
  shows "beautifyPlainText (star # star # c @ star # star # t) = c @ beautifyPlainText t"
  using assms lazyDouble_plain [of c t]
  by (simp add: beautifyPlainText_def replaceSingle_prefix)

lemma replaceDouble_lone: "t = [] \<or> hd t \<noteq> star \<Longrightarrow> replaceDouble (star # t) = star # replaceDouble t"
  by (cases t) auto

lemma beautifyPlainText_single_then:
  assumes "star \<notin> set c" and "\<forall>x\<in>set c. \<not> isLineTerminator x" and "c \<noteq> []"
    and "t = [] \<or> hd t \<noteq> star"
  shows "beautifyPlainText (star # c @ star # t) = c @ beautifyPlainText t"
proof -
  from assms(1,3) have "c @ star # t = [] \<or> hd (c @ star # t) \<noteq> star"
    by (cases c) auto
  then have "replaceDouble (star # c @ star # t) = star # replaceDouble (c @ star # t)"
    by (simp add: replaceDouble_lone)
  also have "\<dots> = star # c @ star # replaceDouble t"
    using assms(1,4) by (simp add: replaceDouble_prefix replaceDouble_lone)
  finally show ?thesis
    using assms(1,2) lazySingle_plain [of c "replaceDouble t"]
    by (simp add: beautifyPlainText_def)
qed

lemma beautifyPlainText_double_spans:
  assumes "star \<notin> set a" "\<forall>x\<in>set a. \<not> isLineTerminator x"
    and "star \<notin> set b" "\<forall>x\<in>set b. \<not> isLineTerminator x"
  shows "beautifyPlainText (star # star # a @ star # b @ [star, star]) = a @ star # b"
proof -
  have single: "replaceSingle (a @ star # b) = a @ star # b"
    using assms(1,3) by (simp add: replaceSingle_prefix lazySingle_none replaceSingle_plain)
  show ?thesis
  proof (cases b)
    case Nil
    have "lazyDouble (a @ [star, star, star]) = Some (a, [star])"
      using assms(1,2) by (simp add: lazyDouble_prefix)
    with Nil single show ?thesis
      by (simp add: beautifyPlainText_def)
  next
    case (Cons y ys)
    with assms(3,4) have "lazyDouble (star # b @ [star, star]) = Some (star # b, [])"
      using lazyDouble_plain [of b "[]"] by (auto simp: star_not_terminator)
    then have "lazyDouble (a @ star # b @ [star, star]) = Some (a @ star # b, [])"
      using assms(1,2) by (simp add: lazyDouble_prefix)
    with single show ?thesis
      by (simp add: beautifyPlainText_def)
  qed
qed

lemma beautifyPlainText_single_blocked:
  assumes "star \<notin> set c" and "\<exists>x\<in>set c. isLineTerminator x"
  shows "beautifyPlainText (star # c @ [star]) = star # c @ [star]"
proof -
  from assms have "c @ [star] = [] \<or> hd (c @ [star]) \<noteq> star"
    by (cases c) auto
  then have "replaceDouble (star # c @ [star]) = star # replaceDouble (c @ [star])"
    by (rule replaceDouble_lone)
  with assms(1) have "replaceDouble (star # c @ [star]) = star # c @ [star]"
    by (simp add: replaceDouble_closing)
  moreover have "replaceSingle (star # c @ [star]) = star # c @ [star]"
    using assms by (simp add: lazySingle_blocked replaceSingle_prefix)
  ultimately show ?thesis
    by (simp add: beautifyPlainText_def)
qed

lemma beautifyPlainText_double_blocked:
  assumes "star \<notin> set a" and "\<exists>x\<in>set a. isLineTerminator x"
    and "star \<notin> set b" and "\<forall>x\<in>set b. \<not> isLineTerminator x"
  shows "beautifyPlainText (star # star # a @ star # b @ [star, star]) = a @ b @ [star]"
proof -
  let ?t = "star # star # a @ star # b @ [star, star]"
  from assms(2) have nonempty: "a \<noteq> []" by auto
  have tail: "replaceDouble (star # b @ [star, star]) = star # b @ [star, star]"
  proof (cases b)
    case Nil
    then show ?thesis by simp
  next
    case (Cons y ys)
    with assms(3) have "b @ [star, star] = [] \<or> hd (b @ [star, star]) \<noteq> star"
      by auto
    then have "replaceDouble (star # b @ [star, star]) = star # replaceDouble (b @ [star, star])"
      by (rule replaceDouble_lone)
    with assms(3) show ?thesis
      by (simp add: replaceDouble_prefix)
  qed
  have "lazyDouble (a @ star # b @ [star, star]) = None"
    using assms(1,2) by (rule lazyDouble_blocked)
  then have "replaceDouble ?t = star # replaceDouble (star # a @ star # b @ [star, star])"
    by simp
  also have "\<dots> = star # star # replaceDouble (a @ star # b @ [star, star])"
  proof -
    from nonempty assms(1)
    have "a @ star # b @ [star, star] = [] \<or> hd (a @ star # b @ [star, star]) \<noteq> star"
      by (cases a) auto
    then show ?thesis
      by (simp only: replaceDouble_lone)
  qed
  also have "\<dots> = ?t"
    using assms(1) tail by (simp add: replaceDouble_prefix)
  finally have double: "replaceDouble ?t = ?t" .
  have "replaceSingle ?t = replaceSingle (a @ star # b @ [star, star])"
    by simp
  also have "\<dots> = a @ b @ [star]"
    using assms(1,3,4) lazySingle_plain [of b "[star]"]
    by (simp add: replaceSingle_prefix)
  finally have single: "replaceSingle ?t = a @ b @ [star]" .
  show ?thesis
    unfolding beautifyPlainText_def double by (rule single)
qed

lemma beautifyPlainText_empty: "beautifyPlainText [] = []"
  by (simp add: beautifyPlainText_def)

section \<open>Evaluating strings\<close>

lemma digitsOf_numeral:
  "digitsOf (numeral k) =
     (if numeral k < (10::nat) then [of_nat (48 + numeral k)]
      else digitsOf (numeral k div 10) @ [of_nat (48 + numeral k mod 10)])"
  by (rule digitsOf.simps)

lemma digitsOf_one: "digitsOf (Suc 0) = [49]"
  by (subst digitsOf.simps) simp

lemmas evalString = js_def numberToString_def digitsOf_numeral digitsOf_one

lemma trim_blank: "trim (js ''   '') = []"
  by (simp add: trim_def js_def isWhiteSpace_def)

lemma trim_padded: "trim (js '' hi '') \<noteq> []"
  by (simp add: trim_def js_def isWhiteSpace_def)

lemma trim_hi: "trim (js ''hi'') \<noteq> []"
  by (simp add: trim_def js_def isWhiteSpace_def)

lemma trim_more: "trim (js ''more'') \<noteq> []"
  by (simp add: trim_def js_def isWhiteSpace_def)

section \<open>The orchestrator in closed form\<close>

lemma handleAIResponse_eq:
  assumes "trim userMessage \<noteq> []"
  shows "handleAIResponse userMessage env s =
     s\<lparr>messages :=
         map (settle (generateContentStream env (instruction @ userMessage))
                (numberToString (dateNow env + 1)))
           (messages s @
              [userMessageOf userMessage env,
               \<lparr>id_m = numberToString (dateNow env + 1), text_m = [], sender = AI,
                parentId = Some (uuidUser env), timestamp = dateAI env, isCode = None\<rparr>]),
       isLoading := False, currentStreamingMessage := None,
       latestAIMessageId := Some (numberToString (dateNow env + 1))\<rparr>"
proof -
  from assms have "userMessage \<noteq> []"
    by (auto simp: trim_def)
  with assms show ?thesis
    by (simp add: handleAIResponse_def addMessage_def fillMessage_def stringOr_def
        stringOrNull_def setIsLoading_def sendToGeminiStream_eq newAIMessage_def
        userMessageOf_def Let_def)
qed

section \<open>The tree builder, pass by pass\<close>

lemma initNodes_heap:
  "fst (initNodes ms (h, nm)) = h @ map (\<lambda>m. \<lparr>message = m, replies = []\<rparr>) ms"
  by (induction ms arbitrary: h nm) simp_all

lemma initNodes_other:
  "k \<notin> id_m ` set ms \<Longrightarrow> snd (initNodes ms (h, nm)) k = nm k"
  by (induction ms arbitrary: h nm) simp_all

lemma initNodes_dom:
  "snd (initNodes ms (h, nm)) k \<noteq> None \<longleftrightarrow> nm k \<noteq> None \<or> k \<in> id_m ` set ms"
  by (induction ms arbitrary: h nm) auto

lemma initNodes_range:
  "\<forall>k a. nm k = Some a \<longrightarrow> a < length h \<Longrightarrow> snd (initNodes ms (h, nm)) k = Some a \<Longrightarrow>
     a < length h + length ms"
proof (induction ms arbitrary: h nm)
  case Nil
  then show ?case by simp
next
  case (Cons m ms)
  have "\<forall>k a. (nm(id_m m \<mapsto> length h)) k = Some a \<longrightarrow>
      a < length (h @ [\<lparr>message = m, replies = []\<rparr>])"
    using Cons.prems(1) by (auto simp: less_Suc_eq)
  from Cons.IH [OF this] Cons.prems(2) show ?case by (simp add: fun_upd_def)
qed

lemma initNodes_distinct:
  "distinct (map id_m ms) \<Longrightarrow> j < length ms \<Longrightarrow>
     snd (initNodes ms (h, nm)) (id_m (ms ! j)) = Some (length h + j)"
proof (induction ms arbitrary: h nm j)
  case Nil
  then show ?case by simp
next
  case (Cons m ms)
  show ?case
  proof (cases j)
    case 0
    with Cons.prems show ?thesis by (simp add: initNodes_other)
  next
    case (Suc j')
    with Cons.prems Cons.IH [of j' "h @ [\<lparr>message = m, replies = []\<rparr>]" "nm(id_m m \<mapsto> length h)"]
    show ?thesis by (simp add: fun_upd_def)
  qed
qed

lemma length_pushReply [simp]: "length (pushReply p a h) = length h"
  by (simp add: pushReply_def)

lemma message_pushReply [simp]: "message (pushReply p a h ! q) = message (h ! q)"
  by (cases "p < length h") (simp_all add: pushReply_def nth_list_update list_update_beyond)

lemma replies_pushReply:
  "p < length h \<Longrightarrow>
     replies (pushReply p a h ! q) = (if q = p then replies (h ! q) @ [a] else replies (h ! q))"
  by (simp add: pushReply_def nth_list_update)

lemma mset_pushReply:
  assumes "p < length h"
  shows "mset (concat (map replies (pushReply p a h))) =
     mset (concat (map replies h)) + {#a#}"
proof -
  have "h = take p h @ h ! p # drop (Suc p) h"
    using assms by (rule id_take_nth_drop)
  then have "concat (map replies h) =
      concat (map replies (take p h)) @ replies (h ! p) @ concat (map replies (drop (Suc p) h))"
    by (metis concat.simps(2) concat_append list.simps(9) map_append)
  moreover have "concat (map replies (pushReply p a h)) =
      concat (map replies (take p h)) @ (replies (h ! p) @ [a]) @
        concat (map replies (drop (Suc p) h))"
    using assms by (simp add: pushReply_def upd_conv_take_nth_drop)
  ultimately show ?thesis by simp
qed

lemma linkNodes_total:
  "\<forall>m\<in>set ms. nm (id_m m) \<noteq> None \<Longrightarrow> linkNodes nm ms (roots, h) \<noteq> None"
proof (induction ms arbitrary: roots h)
  case Nil
  then show ?case by simp
next
  case (Cons m ms)
  then obtain node where node: "nm (id_m m) = Some node" by auto
  show ?case
  proof (cases "hasParent nm m")
    case True
    then obtain parentNode where "nm (the (parentId m)) = Some parentNode"
      by (auto simp: hasParent_def split: option.splits)
    with True node Cons show ?thesis by simp
  next
    case False
    with node Cons show ?thesis by simp
  qed
qed

lemma linkNodes_result:
  assumes "linkNodes nm ms (roots, h) = Some (roots', h')"
    and "\<forall>k a. nm k = Some a \<longrightarrow> a < length h"
  shows "length h' = length h \<and>
     roots' = roots @ map (nodeOf nm) (filter (\<lambda>m. parentOf nm m = None) ms) \<and>
     (\<forall>p<length h. message (h' ! p) = message (h ! p) \<and>
        replies (h' ! p) =
          replies (h ! p) @ map (nodeOf nm) (filter (\<lambda>m. parentOf nm m = Some p) ms)) \<and>
     mset (positions (roots', h')) = mset (positions (roots, h)) + mset (map (nodeOf nm) ms)"
  using assms
proof (induction ms arbitrary: roots h)
  case Nil
  then show ?case by simp
next
  case (Cons m ms)
  from Cons.prems(1) obtain node where node: "nm (id_m m) = Some node"
    by (auto split: option.splits)
  then have nodeOf: "nodeOf nm m = node" by (simp add: nodeOf_def)
  show ?case
  proof (cases "hasParent nm m")
    case True
    with Cons.prems(1) node obtain parentNode
      where parent: "nm (the (parentId m)) = Some parentNode"
        and rest: "linkNodes nm ms (roots, pushReply parentNode node h) = Some (roots', h')"
      by (auto split: option.splits)
    from parent Cons.prems(2) have inHeap: "parentNode < length h" by blast
    from True parent have parentOf: "parentOf nm m = Some parentNode"
      by (simp add: parentOf_def)
    from Cons.prems(2) have "\<forall>k a. nm k = Some a \<longrightarrow> a < length (pushReply parentNode node h)"
      by simp
    from Cons.IH [OF rest this] inHeap parentOf nodeOf show ?thesis
      by (auto simp: replies_pushReply positions_def mset_pushReply)
  next
    case False
    with Cons.prems(1) node
    have rest: "linkNodes nm ms (roots @ [node], h) = Some (roots', h')"
      by simp
    from False have parentOf: "parentOf nm m = None"
      by (simp add: parentOf_def)
    from Cons.IH [OF rest Cons.prems(2)] parentOf nodeOf show ?thesis
      by (auto simp: positions_def)
  qed
qed


lemma map_filter_index:
  assumes "\<forall>i<length xs. f (xs ! i) = i"
  shows "map f (filter P xs) = filter (\<lambda>i. P (xs ! i)) [0..<length xs]"
  using assms
proof (induction xs rule: rev_induct)
  case Nil
  then show ?case by simp
next
  case (snoc x xs)
  have prefix: "\<forall>i<length xs. f (xs ! i) = i"
  proof (intro allI impI)
    fix i assume "i < length xs"
    with snoc.prems [rule_format, of i] show "f (xs ! i) = i"
      by (simp add: nth_append)
  qed
  from snoc.prems [rule_format, of "length xs"] have last: "f x = length xs"
    by simp
  have "filter (\<lambda>i. P ((xs @ [x]) ! i)) [0..<length xs] = filter (\<lambda>i. P (xs ! i)) [0..<length xs]"
    by (rule filter_cong) (simp_all add: nth_append)
  with snoc.IH [OF prefix] last show ?case
    by simp
qed

lemma concat_replies_fresh:
  "concat (map replies (map (\<lambda>m. \<lparr>message = m, replies = []\<rparr>) ms)) = []"
  by (induction ms) simp_all

lemma count_list_upt: "i < n \<Longrightarrow> count_list [0..<n] i = 1"
  by (induction n) (auto simp: less_Suc_eq)

lemma buildmessageTree_total: "buildmessageTree msgs \<noteq> None"
proof -
  have "\<forall>m\<in>set msgs. snd (initNodes msgs ([], Map.empty)) (id_m m) \<noteq> None"
    by (subst initNodes_dom) simp
  then show ?thesis
    by (simp add: buildmessageTree_def split_beta linkNodes_total)
qed

section \<open>Properties of \<open>addMessage\<close>\<close>

text \<open>
  C7. \<open>addMessage\<close> on the empty partial record appends and returns a message whose id
  is the generated one, with sender user, empty text, \<open>isCode\<close> false, \<open>parentId\<close>
  null and, as timestamp, the clock reading \<open>now\<close> that the call itself takes: with a
  clock that does not run backwards, a time at or after the time \<open>invoked\<close> of the call.
\<close>

theorem addMessage_empty:
  "addMessage emptyPartial uuid now s =
     (\<lparr>id_m = uuid, text_m = [], sender = User, parentId = None, timestamp = now,
       isCode = Some False\<rparr>,
      s\<lparr>messages := messages s @
           [\<lparr>id_m = uuid, text_m = [], sender = User, parentId = None, timestamp = now,
             isCode = Some False\<rparr>],
        latestAIMessageId := Some uuid\<rparr>) \<and>
   (invoked \<le> now \<longrightarrow> invoked \<le> timestamp (fst (addMessage emptyPartial uuid now s)))"
  by (simp add: addMessage_def fillMessage_def emptyPartial_def stringOr_def
      stringOrNull_def Let_def)

text \<open>C7 at a concrete identifier and clock reading, on the initial store.\<close>

theorem addMessage_empty_witness:
  "fst (addMessage emptyPartial (js ''3f2a'') 1000 initialState) =
     \<lparr>id_m = js ''3f2a'', text_m = [], sender = User, parentId = None, timestamp = 1000,
      isCode = Some False\<rparr> \<and>
   messages (snd (addMessage emptyPartial (js ''3f2a'') 1000 initialState)) =
     [\<lparr>id_m = js ''3f2a'', text_m = [], sender = User, parentId = None, timestamp = 1000,
       isCode = Some False\<rparr>] \<and>
   (999::int) \<le> 1000 \<and>
   999 \<le> timestamp (fst (addMessage emptyPartial (js ''3f2a'') 1000 initialState))"
proof -
  note inst = addMessage_empty [of "js ''3f2a''" 1000 initialState 999]
  from inst
  have "addMessage emptyPartial (js ''3f2a'') 1000 initialState =
      (\<lparr>id_m = js ''3f2a'', text_m = [], sender = User, parentId = None, timestamp = 1000,
        isCode = Some False\<rparr>,
       initialState\<lparr>messages := messages initialState @
           [\<lparr>id_m = js ''3f2a'', text_m = [], sender = User, parentId = None, timestamp = 1000,
             isCode = Some False\<rparr>],
         latestAIMessageId := Some (js ''3f2a'')\<rparr>)"
    by (rule conjunct1)
  then have returned: "fst (addMessage emptyPartial (js ''3f2a'') 1000 initialState) =
      \<lparr>id_m = js ''3f2a'', text_m = [], sender = User, parentId = None, timestamp = 1000,
       isCode = Some False\<rparr>"
    and appended: "messages (snd (addMessage emptyPartial (js ''3f2a'') 1000 initialState)) =
      [\<lparr>id_m = js ''3f2a'', text_m = [], sender = User, parentId = None, timestamp = 1000,
        isCode = Some False\<rparr>]"
    by (simp_all add: initialState_def)
  have before: "(999::int) \<le> 1000"
    by simp
  with inst have "999 \<le> timestamp (fst (addMessage emptyPartial (js ''3f2a'') 1000 initialState))"
    by blast
  with returned appended before show ?thesis
    by blast
qed

text \<open>
  C3, as the code has it: the tracking field \<open>latestAIMessageId\<close> takes the id of the new
  message exactly when its sender is user, and is left as it was when the sender is ai.
\<close>

theorem addMessage_tracker:
  "sender (fst (addMessage messageData uuid now s)) =
     (case sender_opt messageData of None \<Rightarrow> User | Some x \<Rightarrow> x) \<and>
   latestAIMessageId (snd (addMessage messageData uuid now s)) =
     (if sender (fst (addMessage messageData uuid now s)) = User
      then Some (id_m (fst (addMessage messageData uuid now s)))
      else latestAIMessageId s)"
  by (simp add: addMessage_def fillMessage_def Let_def)

text \<open>C3 as amended, once for each sender.\<close>

theorem addMessage_tracker_witness:
  "latestAIMessageId
     (snd (addMessage (emptyPartial\<lparr>sender_opt := Some User\<rparr>) (js ''u1'') 0 initialState)) =
     Some (id_m (fst (addMessage (emptyPartial\<lparr>sender_opt := Some User\<rparr>) (js ''u1'') 0
       initialState))) \<and>
   latestAIMessageId
     (snd (addMessage (emptyPartial\<lparr>sender_opt := Some AI\<rparr>) (js ''u1'') 0 initialState)) =
     latestAIMessageId initialState"
  using addMessage_tracker [of "emptyPartial\<lparr>sender_opt := Some User\<rparr>" "js ''u1''" 0 initialState]
    addMessage_tracker [of "emptyPartial\<lparr>sender_opt := Some AI\<rparr>" "js ''u1''" 0 initialState]
  by (simp add: emptyPartial_def)

text \<open>
  C3 as stated fails: on the initial store a message with sender ai leaves the field at
  null instead of the new id, and a message with sender user changes the field.
\<close>

theorem addMessage_tracker_counterexample:
  "sender (fst (addMessage (emptyPartial\<lparr>sender_opt := Some AI\<rparr>) (js ''u1'') 0 initialState)) = AI \<and>
   id_m (fst (addMessage (emptyPartial\<lparr>sender_opt := Some AI\<rparr>) (js ''u1'') 0 initialState)) =
     js ''u1'' \<and>
   latestAIMessageId
     (snd (addMessage (emptyPartial\<lparr>sender_opt := Some AI\<rparr>) (js ''u1'') 0 initialState)) = None \<and>
   sender (fst (addMessage (emptyPartial\<lparr>sender_opt := Some User\<rparr>) (js ''u2'') 0 initialState)) =
     User \<and>
   latestAIMessageId initialState = None \<and>
   latestAIMessageId
     (snd (addMessage (emptyPartial\<lparr>sender_opt := Some User\<rparr>) (js ''u2'') 0 initialState)) =
     Some (js ''u2'')"
  by (simp add: addMessage_def fillMessage_def emptyPartial_def initialState_def stringOr_def
      stringOrNull_def Let_def)

section \<open>Properties of the streaming handler\<close>

text \<open>
  C2. When the stream ends normally, \<open>sendToGeminiStream\<close> settles and the text of the
  message it allocated is the concatenation, in order, of \<open>beautifyPlainText\<close> of each
  fragment. The transform strips emphasis markers. Below, a plain text is one without
  asterisks and line terminators.
  \<^item> A plain text wrapped in a pair of double asterisks, or in a pair of single ones, comes
    out bare.
  \<^item> Text without asterisks passes unchanged, and the transform goes on behind it.
  \<^item> A plain text wrapped in double asterisks comes out bare whatever follows, and what
    follows is transformed in turn: the match ends at the first closing pair, and every
    match is replaced.
  \<^item> The same for a non-empty plain text wrapped in single asterisks, unless an asterisk
    follows the closing one.
  \<^item> The double asterisks are stripped first: wrapped around two plain texts that a single
    asterisk separates, they go and the single asterisk stays.
  \<^item> No match runs over a line terminator: single asterisks around a text that holds
    one stay, and double asterisks around such a text are then taken as two empty pairs
    of single ones.
\<close>

theorem sendToGeminiStream_text:
  assumes "\<not> throws (gen (instruction @ userMessage))"
  shows "(\<exists>s'. sendToGeminiStream userMessage dNow nDate gen s = Fulfilled s' \<and>
           length (messages s') = Suc (length (messages s)) \<and>
           id_m (messages s' ! length (messages s)) = numberToString (dNow + 1) \<and>
           text_m (messages s' ! length (messages s)) =
             concat (map beautifyPlainText (fragmentsOf (gen (instruction @ userMessage))))) \<and>
         (\<forall>c. star \<notin> set c \<and> (\<forall>x\<in>set c. \<not> isLineTerminator x) \<longrightarrow>
            beautifyPlainText (star # star # c @ [star, star]) = c \<and>
            beautifyPlainText (star # c @ [star]) = c) \<and>
         (\<forall>p t. star \<notin> set p \<longrightarrow> beautifyPlainText (p @ t) = p @ beautifyPlainText t) \<and>
         (\<forall>c t. star \<notin> set c \<and> (\<forall>x\<in>set c. \<not> isLineTerminator x) \<longrightarrow>
            beautifyPlainText (star # star # c @ star # star # t) = c @ beautifyPlainText t) \<and>
         (\<forall>c t. star \<notin> set c \<and> (\<forall>x\<in>set c. \<not> isLineTerminator x) \<and> c \<noteq> [] \<and>
              (t = [] \<or> hd t \<noteq> star) \<longrightarrow>
            beautifyPlainText (star # c @ star # t) = c @ beautifyPlainText t) \<and>
         (\<forall>a b. star \<notin> set a \<and> (\<forall>x\<in>set a. \<not> isLineTerminator x) \<and>
              star \<notin> set b \<and> (\<forall>x\<in>set b. \<not> isLineTerminator x) \<longrightarrow>
            beautifyPlainText (star # star # a @ star # b @ [star, star]) = a @ star # b) \<and>
         (\<forall>c. star \<notin> set c \<and> (\<exists>x\<in>set c. isLineTerminator x) \<longrightarrow>
            beautifyPlainText (star # c @ [star]) = star # c @ [star]) \<and>
         (\<forall>a b. star \<notin> set a \<and> (\<exists>x\<in>set a. isLineTerminator x) \<and>
              star \<notin> set b \<and> (\<forall>x\<in>set b. \<not> isLineTerminator x) \<longrightarrow>
            beautifyPlainText (star # star # a @ star # b @ [star, star]) = a @ b @ [star])"
proof -
  from assms
  have "\<exists>s'. sendToGeminiStream userMessage dNow nDate gen s = Fulfilled s' \<and>
      length (messages s') = Suc (length (messages s)) \<and>
      id_m (messages s' ! length (messages s)) = numberToString (dNow + 1) \<and>
      text_m (messages s' ! length (messages s)) =
        concat (map beautifyPlainText (fragmentsOf (gen (instruction @ userMessage))))"
    by (simp add: sendToGeminiStream_eq nth_settled_new settle_def newAIMessage_def
        del: map_append)
  then show ?thesis
    by (intro conjI allI impI)
      (simp_all add: beautifyPlainText_strips beautifyPlainText_prefix
        beautifyPlainText_double_then beautifyPlainText_single_then
        beautifyPlainText_double_spans beautifyPlainText_single_blocked
        beautifyPlainText_double_blocked beautifyPlainText_empty)
qed

text \<open>
  C2 on the fragments \<open>Hel\<close>, \<open>**lo** \<close> and \<open>*world*\<close>: the text is \<open>Hello world\<close>;
  and the transform on texts with one or two emphases, with a single asterisk inside a
  double pair, and with a line feed inside a single and inside a double pair.
\<close>

theorem sendToGeminiStream_text_witness:
  "\<not> throws (Chunk (js ''Hel'') (Chunk (js ''**lo** '') (Chunk (js ''*world*'') StreamEnd))) \<and>
   (\<exists>s'. sendToGeminiStream (js ''hi'') 41 42
            (\<lambda>prompt. Chunk (js ''Hel'') (Chunk (js ''**lo** '') (Chunk (js ''*world*'') StreamEnd)))
            initialState = Fulfilled s' \<and>
         text_m (messages s' ! 0) = js ''Hello world'') \<and>
   beautifyPlainText (js ''**lo**'') = js ''lo'' \<and>
   beautifyPlainText (js ''*world*'') = js ''world'' \<and>
   beautifyPlainText (js ''**lo** '') = js ''lo '' \<and>
   beautifyPlainText (js ''*it* and **bold**'') = js ''it and bold'' \<and>
   beautifyPlainText (js ''**a*b**'') = js ''a*b'' \<and>
   beautifyPlainText (js ''*a'' @ 0x0A # js ''b*'') = js ''*a'' @ 0x0A # js ''b*'' \<and>
   beautifyPlainText (js ''**a'' @ 0x0A # js ''*b**'') = js ''a'' @ 0x0A # js ''b*''"
proof -
  let ?r = "Chunk (js ''Hel'') (Chunk (js ''**lo** '') (Chunk (js ''*world*'') StreamEnd))"
  have normal: "\<not> throws ((\<lambda>prompt. ?r) (instruction @ js ''hi''))"
    by simp
  have cleaned: "concat (map beautifyPlainText (fragmentsOf ?r)) = js ''Hello world''"
    by (simp add: js_def star_def isLineTerminator_def beautifyPlainText_def)
  note inst = sendToGeminiStream_text [where gen = "\<lambda>prompt. ?r" and userMessage = "js ''hi''"
      and dNow = 41 and nDate = 42 and s = initialState, OF normal]
  from inst
  obtain s' where "sendToGeminiStream (js ''hi'') 41 42 (\<lambda>prompt. ?r) initialState = Fulfilled s'"
    and "text_m (messages s' ! length (messages initialState)) =
           concat (map beautifyPlainText (fragmentsOf ?r))"
    by auto
  with cleaned
  have streamed: "\<exists>s'. sendToGeminiStream (js ''hi'') 41 42 (\<lambda>prompt. ?r) initialState =
      Fulfilled s' \<and> text_m (messages s' ! 0) = js ''Hello world''"
    by (auto simp: initialState_def)
  note laws = inst [THEN conjunct2]
  note strips = laws [THEN conjunct1, rule_format]
  note plain = laws [THEN conjunct2, THEN conjunct1, rule_format]
  note double = laws [THEN conjunct2, THEN conjunct2, THEN conjunct1, rule_format]
  note single = laws [THEN conjunct2, THEN conjunct2, THEN conjunct2, THEN conjunct1, rule_format]
  note spans = laws [THEN conjunct2, THEN conjunct2, THEN conjunct2, THEN conjunct2,
      THEN conjunct1, rule_format]
  note blocked = laws [THEN conjunct2, THEN conjunct2, THEN conjunct2, THEN conjunct2,
      THEN conjunct2, THEN conjunct1, rule_format]
  note blocked2 = laws [THEN conjunct2, THEN conjunct2, THEN conjunct2, THEN conjunct2,
      THEN conjunct2, THEN conjunct2, rule_format]
  have ok: "star \<notin> set (js ''lo'') \<and> (\<forall>x\<in>set (js ''lo''). \<not> isLineTerminator x)"
    "star \<notin> set (js ''world'') \<and> (\<forall>x\<in>set (js ''world''). \<not> isLineTerminator x)"
    "star \<notin> set (js ''it'') \<and> (\<forall>x\<in>set (js ''it''). \<not> isLineTerminator x)"
    "star \<notin> set (js ''bold'') \<and> (\<forall>x\<in>set (js ''bold''). \<not> isLineTerminator x)"
    "star \<notin> set (js ''a'') \<and> (\<forall>x\<in>set (js ''a''). \<not> isLineTerminator x)"
    "star \<notin> set (js ''b'') \<and> (\<forall>x\<in>set (js ''b''). \<not> isLineTerminator x)"
    "star \<notin> set (js '' '')" "star \<notin> set (js '' and '')"
    by (simp_all add: js_def star_def isLineTerminator_def)
  have lo: "beautifyPlainText (js ''**lo**'') = js ''lo''"
  proof -
    have "js ''**lo**'' = star # star # js ''lo'' @ [star, star]"
      by (simp add: js_def star_def)
    with strips [OF ok(1)] show ?thesis by simp
  qed
  have world: "beautifyPlainText (js ''*world*'') = js ''world''"
  proof -
    have "js ''*world*'' = star # js ''world'' @ [star]"
      by (simp add: js_def star_def)
    with strips [OF ok(2)] show ?thesis by simp
  qed
  have none: "beautifyPlainText [] = []"
    by (rule beautifyPlainText_empty)
  have space: "beautifyPlainText (js '' '') = js '' ''"
    using plain [OF ok(7), of "[]"] none by simp
  have lo_space: "beautifyPlainText (js ''**lo** '') = js ''lo ''"
  proof -
    have "js ''**lo** '' = star # star # js ''lo'' @ star # star # js '' ''"
      and "js ''lo '' = js ''lo'' @ js '' ''"
      by (simp_all add: js_def star_def)
    with double [OF ok(1), of "js '' ''"] space show ?thesis by simp
  qed
  have bold: "beautifyPlainText (js ''**bold**'') = js ''bold''"
  proof -
    have "js ''**bold**'' = star # star # js ''bold'' @ [star, star]"
      by (simp add: js_def star_def)
    with strips [OF ok(4)] show ?thesis by simp
  qed
  have mixed: "beautifyPlainText (js ''*it* and **bold**'') = js ''it and bold''"
  proof -
    have shape: "js ''*it* and **bold**'' = star # js ''it'' @ star # (js '' and '' @ js ''**bold**'')"
      and result: "js ''it and bold'' = js ''it'' @ js '' and '' @ js ''bold''"
      and next_char: "js ''it'' \<noteq> [] \<and> hd (js '' and '' @ js ''**bold**'') \<noteq> star"
      by (simp_all add: js_def star_def)
    from single [of "js ''it''" "js '' and '' @ js ''**bold**''"] ok(3) next_char
    have "beautifyPlainText (star # js ''it'' @ star # (js '' and '' @ js ''**bold**'')) =
        js ''it'' @ beautifyPlainText (js '' and '' @ js ''**bold**'')"
      by blast
    moreover from plain [OF ok(8), of "js ''**bold**''"]
    have "beautifyPlainText (js '' and '' @ js ''**bold**'') =
        js '' and '' @ beautifyPlainText (js ''**bold**'')"
      by blast
    ultimately show ?thesis
      by (simp only: shape result bold)
  qed
  have spanned: "beautifyPlainText (js ''**a*b**'') = js ''a*b''"
  proof -
    have shape: "js ''**a*b**'' = star # star # js ''a'' @ star # js ''b'' @ [star, star]"
      and result: "js ''a*b'' = js ''a'' @ star # js ''b''"
      by (simp_all add: js_def star_def)
    from spans [of "js ''a''" "js ''b''"] ok(5) ok(6)
    show ?thesis
      by (simp only: shape result) simp
  qed
  have newline: "star \<notin> set (js ''a'' @ 0x0A # js ''b'') \<and>
      (\<exists>x\<in>set (js ''a'' @ 0x0A # js ''b''). isLineTerminator x)"
    "star \<notin> set (js ''a'' @ [0x0A]) \<and> (\<exists>x\<in>set (js ''a'' @ [0x0A]). isLineTerminator x)"
    by (simp_all add: js_def star_def isLineTerminator_def)
  have kept: "beautifyPlainText (js ''*a'' @ 0x0A # js ''b*'') = js ''*a'' @ 0x0A # js ''b*''"
  proof -
    have shape: "js ''*a'' @ 0x0A # js ''b*'' = star # (js ''a'' @ 0x0A # js ''b'') @ [star]"
      by (simp add: js_def star_def)
    from blocked [of "js ''a'' @ 0x0A # js ''b''"] newline(1)
    show ?thesis
      by (simp only: shape) simp
  qed
  have halfkept: "beautifyPlainText (js ''**a'' @ 0x0A # js ''*b**'') = js ''a'' @ 0x0A # js ''b*''"
  proof -
    have shape: "js ''**a'' @ 0x0A # js ''*b**'' =
        star # star # (js ''a'' @ [0x0A]) @ star # js ''b'' @ [star, star]"
      and result: "js ''a'' @ 0x0A # js ''b*'' = (js ''a'' @ [0x0A]) @ js ''b'' @ [star]"
      by (simp_all add: js_def star_def)
    from blocked2 [of "js ''a'' @ [0x0A]" "js ''b''"] newline(2) ok(6)
    show ?thesis
      by (simp only: shape result) simp
  qed
  from normal streamed lo world lo_space mixed spanned kept halfkept show ?thesis
    by simp
qed

text \<open>
  C5. When the stream throws, at submission or after any number of fragments, the text of
  the message allocated by \<open>sendToGeminiStream\<close> is the fixed error string.
\<close>

theorem sendToGeminiStream_error_text:
  assumes "throws (gen (instruction @ userMessage))"
  shows "\<exists>s'. sendToGeminiStream userMessage dNow nDate gen s = Fulfilled s' \<and>
           length (messages s') = Suc (length (messages s)) \<and>
           id_m (messages s' ! length (messages s)) = numberToString (dNow + 1) \<and>
           text_m (messages s' ! length (messages s)) = errorText"
  using assms
  by (simp add: sendToGeminiStream_eq nth_settled_new settle_def newAIMessage_def
      del: map_append)

text \<open>C5 on a stream that throws after the fragment \<open>Hel\<close>.\<close>

theorem sendToGeminiStream_error_text_witness:
  "throws (Chunk (js ''Hel'') StreamThrow) \<and>
   (\<exists>s'. sendToGeminiStream (js ''hi'') 41 42 (\<lambda>prompt. Chunk (js ''Hel'') StreamThrow)
            initialState = Fulfilled s' \<and>
         text_m (messages s' ! 0) = js ''Error: Could not process your request.'' \<and>
         text_m (messages s' ! 0) \<noteq> js ''Hel'')"
proof -
  let ?r = "Chunk (js ''Hel'') StreamThrow"
  have thrown: "throws ((\<lambda>prompt. ?r) (instruction @ js ''hi''))"
    by simp
  have differ: "errorText \<noteq> js ''Hel''"
    by (simp add: errorText_def js_def)
  from thrown sendToGeminiStream_error_text [where gen = "\<lambda>prompt. ?r"
      and userMessage = "js ''hi''" and dNow = 41 and nDate = 42 and s = initialState]
  obtain s' where "sendToGeminiStream (js ''hi'') 41 42 (\<lambda>prompt. ?r) initialState = Fulfilled s'"
    and "text_m (messages s' ! length (messages initialState)) = errorText"
    by auto
  with differ show ?thesis
    by (auto simp: initialState_def errorText_def)
qed

text \<open>
  C6. Whatever the stream does, \<open>sendToGeminiStream\<close> settles, and then \<open>isLoading\<close>
  is false and \<open>currentStreamingMessage\<close> is null.
\<close>

theorem sendToGeminiStream_cleanup:
  "\<exists>s'. sendToGeminiStream userMessage dNow nDate gen s = Fulfilled s' \<and>
         isLoading s' = False \<and> currentStreamingMessage s' = None"
  by (simp add: sendToGeminiStream_eq)

text \<open>C6 on a stream that throws and on one that ends normally.\<close>

theorem sendToGeminiStream_cleanup_witness:
  "(\<exists>s'. sendToGeminiStream (js ''hi'') 41 42 (\<lambda>prompt. Chunk (js ''Hel'') StreamThrow)
            (initialState\<lparr>isLoading := True\<rparr>) = Fulfilled s' \<and>
         isLoading s' = False \<and> currentStreamingMessage s' = None) \<and>
   (\<exists>s'. sendToGeminiStream (js ''hi'') 41 42 (\<lambda>prompt. Chunk (js ''Hel'') StreamEnd)
            (initialState\<lparr>isLoading := True\<rparr>) = Fulfilled s' \<and>
         isLoading s' = False \<and> currentStreamingMessage s' = None)"
  using sendToGeminiStream_cleanup [of "js ''hi''" 41 42 "\<lambda>prompt. Chunk (js ''Hel'') StreamThrow"
      "initialState\<lparr>isLoading := True\<rparr>"]
    sendToGeminiStream_cleanup [of "js ''hi''" 41 42 "\<lambda>prompt. Chunk (js ''Hel'') StreamEnd"
      "initialState\<lparr>isLoading := True\<rparr>"]
  by simp

text \<open>
  C10. The update for a fragment and the update of the failure path keep the length and
  the order of the sequence and every field of the store other than \<open>messages\<close>; they
  keep every message whose id is not \<open>currentStreamingMessage\<close>, and of a message
  whose id is, they change the text only.
\<close>

theorem streaming_updates_frame:
  "length (messages (appendChunk t s)) = length (messages s) \<and>
   length (messages (replaceWithError s)) = length (messages s) \<and>
   appendChunk t s = s\<lparr>messages := messages (appendChunk t s)\<rparr> \<and>
   replaceWithError s = s\<lparr>messages := messages (replaceWithError s)\<rparr> \<and>
   (\<forall>i<length (messages s).
      sameButText (messages s ! i) (messages (appendChunk t s) ! i) \<and>
      sameButText (messages s ! i) (messages (replaceWithError s) ! i) \<and>
      (Some (id_m (messages s ! i)) \<noteq> currentStreamingMessage s \<longrightarrow>
         messages (appendChunk t s) ! i = messages s ! i \<and>
         messages (replaceWithError s) ! i = messages s ! i) \<and>
      (Some (id_m (messages s ! i)) = currentStreamingMessage s \<longrightarrow>
         text_m (messages (appendChunk t s) ! i) = text_m (messages s ! i) @ beautifyPlainText t \<and>
         text_m (messages (replaceWithError s) ! i) = errorText))"
  by (simp add: appendChunk_def replaceWithError_def sameButText_def)

text \<open>C10 on a store holding a user message and the reply being streamed.\<close>

theorem streaming_updates_frame_witness:
  "messages (appendChunk (js ''lo'') twoMessages) ! 0 = messages twoMessages ! 0 \<and>
   messages (replaceWithError twoMessages) ! 0 = messages twoMessages ! 0 \<and>
   text_m (messages (appendChunk (js ''lo'') twoMessages) ! 1) = js ''Hello'' \<and>
   text_m (messages (replaceWithError twoMessages) ! 1) = errorText \<and>
   sameButText (messages twoMessages ! 1) (messages (appendChunk (js ''lo'') twoMessages) ! 1) \<and>
   sameButText (messages twoMessages ! 1) (messages (replaceWithError twoMessages) ! 1) \<and>
   length (messages (appendChunk (js ''lo'') twoMessages)) = 2 \<and>
   length (messages (replaceWithError twoMessages)) = 2"
proof -
  note frame = streaming_updates_frame [of "js ''lo''" twoMessages]
  have len: "length (messages twoMessages) = 2"
    by (simp add: twoMessages_def)
  have m0: "Some (id_m (messages twoMessages ! 0)) \<noteq> currentStreamingMessage twoMessages"
    by (simp add: twoMessages_def js_def)
  have m1: "Some (id_m (messages twoMessages ! 1)) = currentStreamingMessage twoMessages"
    by (simp add: twoMessages_def)
  have t1: "text_m (messages twoMessages ! 1) @ beautifyPlainText (js ''lo'') = js ''Hello''"
    by (simp add: twoMessages_def js_def beautifyPlainText_def star_def)
  from frame len have at0: "(0::nat) < 2 \<longrightarrow>
      (Some (id_m (messages twoMessages ! 0)) \<noteq> currentStreamingMessage twoMessages \<longrightarrow>
         messages (appendChunk (js ''lo'') twoMessages) ! 0 = messages twoMessages ! 0 \<and>
         messages (replaceWithError twoMessages) ! 0 = messages twoMessages ! 0)"
    by simp
  from frame len have at1: "(1::nat) < 2 \<longrightarrow>
      sameButText (messages twoMessages ! 1) (messages (appendChunk (js ''lo'') twoMessages) ! 1) \<and>
      sameButText (messages twoMessages ! 1) (messages (replaceWithError twoMessages) ! 1) \<and>
      (Some (id_m (messages twoMessages ! 1)) = currentStreamingMessage twoMessages \<longrightarrow>
         text_m (messages (appendChunk (js ''lo'') twoMessages) ! 1) =
           text_m (messages twoMessages ! 1) @ beautifyPlainText (js ''lo'') \<and>
         text_m (messages (replaceWithError twoMessages) ! 1) = errorText)"
    by simp
  from frame len have lens: "length (messages (appendChunk (js ''lo'') twoMessages)) = 2 \<and>
      length (messages (replaceWithError twoMessages)) = 2"
    by simp
  from at0 at1 lens m0 m1 t1 show ?thesis by simp
qed

section \<open>Properties of the orchestrators\<close>

text \<open>
  C8. On an empty or whitespace-only input \<open>sendMessage\<close> leaves the store as it is,
  input included. Otherwise it clears the input and hands the untrimmed text to
  \<open>handleAIResponse\<close>: the user message appended carries that text (as long as the
  streaming handler does not allocate the very same id and stream into it).
\<close>

theorem sendMessage_blank_or_forward:
  "(trim (input s) = [] \<longrightarrow> sendMessage env s = s) \<and>
   (trim (input s) \<noteq> [] \<longrightarrow>
      sendMessage env s = handleAIResponse (input s) env (s\<lparr>input := []\<rparr>) \<and>
      input (sendMessage env s) = [] \<and>
      length (messages (sendMessage env s)) = length (messages s) + 2 \<and>
      sender (messages (sendMessage env s) ! length (messages s)) = User \<and>
      (uuidUser env \<noteq> numberToString (dateNow env + 1) \<longrightarrow>
         text_m (messages (sendMessage env s) ! length (messages s)) = input s))"
  by (simp add: sendMessage_def setInput_def handleAIResponse_eq nth_settled_pair
      settle_fields settle_other userMessageOf_def Let_def del: map_append)

text \<open>C8 on the input of three spaces and on the input \<open> hi \<close>.\<close>

theorem sendMessage_blank_or_forward_witness:
  "trim (input (initialState\<lparr>input := js ''   ''\<rparr>)) = [] \<and>
   sendMessage demoEnv (initialState\<lparr>input := js ''   ''\<rparr>) = initialState\<lparr>input := js ''   ''\<rparr> \<and>
   trim (input (initialState\<lparr>input := js '' hi ''\<rparr>)) \<noteq> [] \<and>
   input (sendMessage demoEnv (initialState\<lparr>input := js '' hi ''\<rparr>)) = [] \<and>
   length (messages (sendMessage demoEnv (initialState\<lparr>input := js '' hi ''\<rparr>))) = 2 \<and>
   text_m (messages (sendMessage demoEnv (initialState\<lparr>input := js '' hi ''\<rparr>)) ! 0) = js '' hi ''"
proof -
  have fresh: "uuidUser demoEnv \<noteq> numberToString (dateNow demoEnv + 1)"
    by (simp add: demoEnv_def evalString)
  have blank: "trim (input (initialState\<lparr>input := js ''   ''\<rparr>)) = []"
    by (simp add: trim_blank)
  have padded: "trim (input (initialState\<lparr>input := js '' hi ''\<rparr>)) \<noteq> []"
    by (simp add: trim_padded)
  from blank sendMessage_blank_or_forward [of "initialState\<lparr>input := js ''   ''\<rparr>" demoEnv]
  have unchanged: "sendMessage demoEnv (initialState\<lparr>input := js ''   ''\<rparr>) =
      initialState\<lparr>input := js ''   ''\<rparr>"
    by blast
  from padded fresh sendMessage_blank_or_forward [of "initialState\<lparr>input := js '' hi ''\<rparr>" demoEnv]
  have sent: "input (sendMessage demoEnv (initialState\<lparr>input := js '' hi ''\<rparr>)) = [] \<and>
      length (messages (sendMessage demoEnv (initialState\<lparr>input := js '' hi ''\<rparr>))) =
        length (messages (initialState\<lparr>input := js '' hi ''\<rparr>)) + 2 \<and>
      text_m (messages (sendMessage demoEnv (initialState\<lparr>input := js '' hi ''\<rparr>)) !
        length (messages (initialState\<lparr>input := js '' hi ''\<rparr>))) =
        input (initialState\<lparr>input := js '' hi ''\<rparr>)"
    by blast
  from blank unchanged padded sent show ?thesis
    by (simp add: initialState_def)
qed

text \<open>
  C4, as the code has it: \<open>handleAIResponse\<close> on a non-blank text appends a user
  message and then an AI message whose \<open>parentId\<close> is the id of that user message.
\<close>

theorem handleAIResponse_parent:
  assumes "trim userMessage \<noteq> []"
  shows "length (messages (handleAIResponse userMessage env s)) = length (messages s) + 2 \<and>
     id_m (messages (handleAIResponse userMessage env s) ! length (messages s)) = uuidUser env \<and>
     sender (messages (handleAIResponse userMessage env s) ! length (messages s)) = User \<and>
     id_m (messages (handleAIResponse userMessage env s) ! Suc (length (messages s))) =
       numberToString (dateNow env + 1) \<and>
     sender (messages (handleAIResponse userMessage env s) ! Suc (length (messages s))) = AI \<and>
     parentId (messages (handleAIResponse userMessage env s) ! Suc (length (messages s))) =
       Some (id_m (messages (handleAIResponse userMessage env s) ! length (messages s)))"
  using assms
  by (simp add: handleAIResponse_eq nth_settled_pair settle_fields userMessageOf_def
      del: map_append)

text \<open>C4 as amended, on the second turn of a conversation.\<close>

theorem handleAIResponse_parent_witness:
  "trim (js ''more'') \<noteq> [] \<and>
   length (messages (handleAIResponse (js ''more'') demoEnv afterFirstTurn)) = 4 \<and>
   sender (messages (handleAIResponse (js ''more'') demoEnv afterFirstTurn) ! 2) = User \<and>
   sender (messages (handleAIResponse (js ''more'') demoEnv afterFirstTurn) ! 3) = AI \<and>
   parentId (messages (handleAIResponse (js ''more'') demoEnv afterFirstTurn) ! 3) =
     Some (id_m (messages (handleAIResponse (js ''more'') demoEnv afterFirstTurn) ! 2))"
  using handleAIResponse_parent [OF trim_more, of demoEnv afterFirstTurn] trim_more
  by (simp add: afterFirstTurn_def eval_nat_numeral)

text \<open>
  C4 as stated fails: after a first turn the tracking field holds the id \<open>7\<close> of the AI
  reply, yet the AI message of the second turn is parented to the user message \<open>u9\<close>
  just appended.
\<close>

theorem handleAIResponse_parent_counterexample:
  "handleAIResponse (js ''hi'') firstEnv initialState = afterFirstTurn \<and>
   latestAIMessageId afterFirstTurn = Some (js ''7'') \<and>
   sender (messages (handleAIResponse (js ''more'') demoEnv afterFirstTurn) ! 3) = AI \<and>
   parentId (messages (handleAIResponse (js ''more'') demoEnv afterFirstTurn) ! 3) =
     Some (js ''u9'') \<and>
   id_m (messages (handleAIResponse (js ''more'') demoEnv afterFirstTurn) ! 2) = js ''u9'' \<and>
   sender (messages (handleAIResponse (js ''more'') demoEnv afterFirstTurn) ! 2) = User \<and>
   Some (js ''u9'') \<noteq> latestAIMessageId afterFirstTurn"
proof -
  have first: "handleAIResponse (js ''hi'') firstEnv initialState = afterFirstTurn"
    by (subst handleAIResponse_eq [OF trim_hi])
      (simp add: firstEnv_def initialState_def afterFirstTurn_def settle_def
        userMessageOf_def evalString beautifyPlainText_def star_def)
  have second: "messages (handleAIResponse (js ''more'') demoEnv afterFirstTurn) =
      messages afterFirstTurn @
        [\<lparr>id_m = js ''u9'', text_m = js ''more'', sender = User, parentId = None,
          timestamp = 100, isCode = Some False\<rparr>,
         \<lparr>id_m = js ''101'', text_m = js ''ok'', sender = AI, parentId = Some (js ''u9''),
          timestamp = 101, isCode = None\<rparr>]"
    by (subst handleAIResponse_eq [OF trim_more])
      (simp add: demoEnv_def afterFirstTurn_def settle_def userMessageOf_def evalString
        beautifyPlainText_def star_def)
  show ?thesis
    by (simp add: first second) (simp add: afterFirstTurn_def js_def)
qed

section \<open>Identifiers\<close>

text \<open>
  C9, as the code has it: the store never checks identifiers. Across \<open>addMessage\<close> the
  ids stay pairwise distinct exactly when they were and the id of the new message (the
  caller's non-empty id, else the generated one) is not yet in the sequence; across
  \<open>sendToGeminiStream\<close> exactly when they were and the decimal rendering of
  \<open>Date.now() + 1\<close> is not yet in the sequence.
\<close>

theorem ids_distinct_preserved:
  "id_m (fst (addMessage messageData uuid now s)) = stringOr (id_opt messageData) uuid \<and>
   (distinct (map id_m (messages (snd (addMessage messageData uuid now s)))) \<longleftrightarrow>
      distinct (map id_m (messages s)) \<and>
      stringOr (id_opt messageData) uuid \<notin> id_m ` set (messages s)) \<and>
   (\<exists>s'. sendToGeminiStream userMessage dNow nDate gen s = Fulfilled s' \<and>
      id_m (messages s' ! length (messages s)) = numberToString (dNow + 1) \<and>
      (distinct (map id_m (messages s')) \<longleftrightarrow>
         distinct (map id_m (messages s)) \<and>
         numberToString (dNow + 1) \<notin> id_m ` set (messages s)))"
proof -
  have add: "id_m (fst (addMessage messageData uuid now s)) = stringOr (id_opt messageData) uuid"
    "map id_m (messages (snd (addMessage messageData uuid now s))) =
       map id_m (messages s) @ [stringOr (id_opt messageData) uuid]"
    by (simp_all add: addMessage_def fillMessage_def Let_def)
  have stream: "map id_m (map (settle (gen (instruction @ userMessage)) (numberToString (dNow + 1)))
        (messages s @ [newAIMessage dNow nDate s])) =
      map id_m (messages s) @ [numberToString (dNow + 1)]"
    by (subst map_id_settle) (simp add: newAIMessage_def)
  have new: "id_m (map (settle (gen (instruction @ userMessage)) (numberToString (dNow + 1)))
        (messages s @ [newAIMessage dNow nDate s]) ! length (messages s)) =
      numberToString (dNow + 1)"
    by (simp add: nth_settled_new settle_fields newAIMessage_def del: map_append)
  define s' where "s' = s\<lparr>messages :=
        map (settle (gen (instruction @ userMessage)) (numberToString (dNow + 1)))
          (messages s @ [newAIMessage dNow nDate s]),
      isLoading := False, currentStreamingMessage := None,
      latestAIMessageId := Some (numberToString (dNow + 1))\<rparr>"
  have settled: "sendToGeminiStream userMessage dNow nDate gen s = Fulfilled s'"
    by (simp add: s'_def sendToGeminiStream_eq)
  have msgs: "messages s' =
      map (settle (gen (instruction @ userMessage)) (numberToString (dNow + 1)))
        (messages s @ [newAIMessage dNow nDate s])"
    by (simp add: s'_def)
  have ids: "map id_m (messages s') = map id_m (messages s) @ [numberToString (dNow + 1)]"
    by (simp only: msgs stream)
  have last: "id_m (messages s' ! length (messages s)) = numberToString (dNow + 1)"
    by (simp only: msgs new)
  have "distinct (map id_m (messages s')) \<longleftrightarrow>
      distinct (map id_m (messages s)) \<and> numberToString (dNow + 1) \<notin> id_m ` set (messages s)"
    by (subst ids) auto
  with settled last have part2: "\<exists>s'. sendToGeminiStream userMessage dNow nDate gen s = Fulfilled s' \<and>
      id_m (messages s' ! length (messages s)) = numberToString (dNow + 1) \<and>
      (distinct (map id_m (messages s')) \<longleftrightarrow>
         distinct (map id_m (messages s)) \<and>
         numberToString (dNow + 1) \<notin> id_m ` set (messages s))"
    by blast
  have part1: "distinct (map id_m (messages (snd (addMessage messageData uuid now s)))) \<longleftrightarrow>
      distinct (map id_m (messages s)) \<and>
      stringOr (id_opt messageData) uuid \<notin> id_m ` set (messages s)"
    by (subst add(2)) auto
  from add(1) part1 part2 show ?thesis
    by blast
qed

text \<open>C9 as amended, on the initial store.\<close>

theorem ids_distinct_preserved_witness:
  "distinct (map id_m (messages (snd (addMessage emptyPartial (js ''u1'') 0 initialState)))) \<and>
   (\<exists>s'. sendToGeminiStream (js ''hi'') 41 42 (\<lambda>prompt. StreamEnd) initialState = Fulfilled s' \<and>
         distinct (map id_m (messages s')))"
  using ids_distinct_preserved [of emptyPartial "js ''u1''" 0 initialState "js ''hi''" 41 42
      "\<lambda>prompt. StreamEnd"]
  by (auto simp: initialState_def)

text \<open>C9 as stated fails: two calls of \<open>addMessage\<close> with the caller-supplied id \<open>a\<close>.\<close>

theorem ids_distinct_counterexample:
  "distinct (map id_m (messages (snd (addMessage (emptyPartial\<lparr>id_opt := Some (js ''a'')\<rparr>)
      (js ''u1'') 0 initialState)))) \<and>
   \<not> distinct (map id_m (messages (snd (addMessage (emptyPartial\<lparr>id_opt := Some (js ''a'')\<rparr>)
      (js ''u2'') 1
      (snd (addMessage (emptyPartial\<lparr>id_opt := Some (js ''a'')\<rparr>) (js ''u1'') 0
        initialState))))))"
  by (simp add: addMessage_def fillMessage_def emptyPartial_def initialState_def stringOr_def
      stringOrNull_def Let_def js_def)

section \<open>Properties of the tree builder\<close>

text \<open>
  C1, as the code has it: when the ids of the sequence are pairwise distinct,
  \<open>buildmessageTree\<close> returns, the node at address \<open>i\<close> carries the message at
  position \<open>i\<close>, and every node is in exactly one position: in the reply list of the
  node of its parent when its \<open>parentId\<close> is a non-empty string that is the id of a
  message of the sequence, in the root list otherwise; both kinds of list are in the
  order of the sequence.
\<close>

theorem buildmessageTree_placement:
  assumes "distinct (map id_m msgs)"
  shows "\<exists>roots h. buildmessageTree msgs = Some (roots, h) \<and> length h = length msgs \<and>
     roots = filter (\<lambda>i. \<not> resolves msgs (msgs ! i)) [0..<length msgs] \<and>
     (\<forall>p<length msgs.
        message (h ! p) = msgs ! p \<and>
        replies (h ! p) =
          filter (\<lambda>i. resolves msgs (msgs ! i) \<and> parentId (msgs ! i) = Some (id_m (msgs ! p)))
            [0..<length msgs]) \<and>
     (\<forall>i<length msgs. count_list (positions (roots, h)) i = 1)"
proof -
  define h0 where "h0 = fst (initNodes msgs ([], Map.empty))"
  define nm where "nm = snd (initNodes msgs ([], Map.empty))"
  have h0: "h0 = map (\<lambda>m. \<lparr>message = m, replies = []\<rparr>) msgs"
    by (simp add: h0_def initNodes_heap)
  have dom: "nm k \<noteq> None \<longleftrightarrow> k \<in> id_m ` set msgs" for k
    unfolding nm_def by (subst initNodes_dom) simp
  have range: "\<forall>k a. nm k = Some a \<longrightarrow> a < length h0"
  proof (intro allI impI)
    fix k a assume "nm k = Some a"
    then have "a < length ([]::nodeHeap) + length msgs"
      unfolding nm_def by (rule initNodes_range [rotated]) simp
    then show "a < length h0" by (simp add: h0)
  qed
  have at: "nm (id_m (msgs ! j)) = Some j" if "j < length msgs" for j
    using initNodes_distinct [OF assms that, of "[]" Map.empty] by (simp add: nm_def)
  have nodeOf: "\<forall>i<length msgs. nodeOf nm (msgs ! i) = i"
    by (simp add: nodeOf_def at)
  have hasParent: "hasParent nm m \<longleftrightarrow> resolves msgs m" for m
    using dom by (auto simp: hasParent_def resolves_def split: option.splits)
  have unresolved: "parentOf nm m = None \<longleftrightarrow> \<not> resolves msgs m" for m
  proof (cases "hasParent nm m")
    case True
    then have "nm (the (parentId m)) \<noteq> None"
      by (auto simp: hasParent_def split: option.splits)
    with True show ?thesis by (simp add: parentOf_def hasParent)
  next
    case False
    then show ?thesis by (simp add: parentOf_def hasParent)
  qed
  have resolved: "parentOf nm m = Some p \<longleftrightarrow>
      resolves msgs m \<and> parentId m = Some (id_m (msgs ! p))" if p: "p < length msgs" for m p
  proof (cases "resolves msgs m")
    case False
    then show ?thesis by (simp add: parentOf_def hasParent)
  next
    case True
    then obtain q where q: "parentId m = Some q" "q \<in> id_m ` set msgs"
      by (auto simp: resolves_def split: option.splits)
    then obtain j where j: "j < length msgs" "q = id_m (msgs ! j)"
      by (auto simp: in_set_conv_nth)
    have "j = p \<longleftrightarrow> id_m (msgs ! j) = id_m (msgs ! p)"
      using assms j(1) p by (auto simp: distinct_conv_nth)
    with True q j at [OF j(1)] show ?thesis
      by (simp add: parentOf_def hasParent)
  qed
  have "\<forall>m\<in>set msgs. nm (id_m m) \<noteq> None"
    using dom by blast
  then have "linkNodes nm msgs ([], h0) \<noteq> None"
    by (rule linkNodes_total)
  then obtain roots h where linked: "linkNodes nm msgs ([], h0) = Some (roots, h)"
    by auto
  then have built: "buildmessageTree msgs = Some (roots, h)"
    by (simp add: buildmessageTree_def h0_def nm_def split_beta)
  note result = linkNodes_result [OF linked range]
  from result have len: "length h = length msgs"
    by (simp add: h0)
  from result have "roots = map (nodeOf nm) (filter (\<lambda>m. parentOf nm m = None) msgs)"
    by simp
  then have roots: "roots = filter (\<lambda>i. \<not> resolves msgs (msgs ! i)) [0..<length msgs]"
    by (simp add: map_filter_index [OF nodeOf] unresolved)
  have nodes: "message (h ! p) = msgs ! p \<and>
      replies (h ! p) =
        filter (\<lambda>i. resolves msgs (msgs ! i) \<and> parentId (msgs ! i) = Some (id_m (msgs ! p)))
          [0..<length msgs]" if p: "p < length msgs" for p
  proof -
    from result p have "message (h ! p) = message (h0 ! p)"
      and "replies (h ! p) =
        replies (h0 ! p) @ map (nodeOf nm) (filter (\<lambda>m. parentOf nm m = Some p) msgs)"
      by (simp_all add: h0)
    with p show ?thesis
      by (simp add: h0 map_filter_index [OF nodeOf] resolved [OF p])
  qed
  have "map (nodeOf nm) msgs = [0..<length msgs]"
    using map_filter_index [OF nodeOf, of "\<lambda>m. True"] by simp
  moreover from result have "mset (positions (roots, h)) =
      mset (positions ([], h0)) + mset (map (nodeOf nm) msgs)"
    by blast
  moreover have "positions ([], h0) = []"
    unfolding positions_def h0 by (simp only: concat_replies_fresh fst_conv snd_conv append_Nil)
  ultimately have "mset (positions (roots, h)) = mset [0..<length msgs]"
    by (simp del: mset_upt)
  then have "count_list (positions (roots, h)) i = count_list [0..<length msgs] i" for i
    by (metis count_mset)
  then have once: "\<forall>i<length msgs. count_list (positions (roots, h)) i = 1"
    by (simp add: count_list_upt)
  from built len roots nodes once show ?thesis
    by blast
qed

text \<open>C1 as amended, on a thread of four messages.\<close>

theorem buildmessageTree_placement_witness:
  "distinct (map id_m threadMsgs) \<and>
   (\<exists>roots h. buildmessageTree threadMsgs = Some (roots, h) \<and> roots = [0, 2] \<and>
      map message h = threadMsgs \<and> map replies h = [ [1, 3], [], [], []])"
proof -
  have distinct: "distinct (map id_m threadMsgs)"
    by (simp add: threadMsgs_def plainMessage_def js_def)
  have len: "length threadMsgs = 4"
    by (simp add: threadMsgs_def)
  have upt: "[0..<4] = [0, 1, 2, 3::nat]"
    by code_simp
  have unresolved: "filter (\<lambda>i. \<not> resolves threadMsgs (threadMsgs ! i)) [0, 1, 2, 3] = [0, 2]"
    by (simp add: resolves_def threadMsgs_def plainMessage_def js_def)
  have resolved: "filter (\<lambda>i. resolves threadMsgs (threadMsgs ! i) \<and>
        parentId (threadMsgs ! i) = Some (id_m (threadMsgs ! p))) [0, 1, 2, 3] =
      (if p = 0 then [1, 3] else [])" if "p < 4" for p
  proof -
    from that consider "p = 0" | "p = 1" | "p = 2" | "p = 3" by linarith
    then show ?thesis
      by cases (simp_all add: resolves_def threadMsgs_def plainMessage_def js_def)
  qed
  from buildmessageTree_placement [OF distinct]
  obtain roots h where built: "buildmessageTree threadMsgs = Some (roots, h)"
    and lenh': "length h = length threadMsgs"
    and roots': "roots = filter (\<lambda>i. \<not> resolves threadMsgs (threadMsgs ! i))
        [0..<length threadMsgs]"
    and nodes': "\<forall>p<length threadMsgs. message (h ! p) = threadMsgs ! p \<and>
        replies (h ! p) =
          filter (\<lambda>i. resolves threadMsgs (threadMsgs ! i) \<and>
              parentId (threadMsgs ! i) = Some (id_m (threadMsgs ! p)))
            [0..<length threadMsgs]"
    by blast
  from lenh' have lenh: "length h = 4"
    by (simp only: len)
  from roots' have roots: "roots = [0, 2]"
    by (simp only: len upt unresolved)
  have nodes: "message (h ! p) = threadMsgs ! p \<and> replies (h ! p) = (if p = 0 then [1, 3] else [])"
    if "p < 4" for p
    using nodes' [rule_format, of p] that resolved [OF that]
    by (simp only: len upt)
  have "map message h = threadMsgs"
    by (rule nth_equalityI) (simp_all add: lenh len nodes)
  moreover have "map replies h = [ [1, 3], [], [], []]"
  proof (rule nth_equalityI)
    show "length (map replies h) = length [ [1, 3], [], [], []::nat list]"
      by (simp add: lenh)
    fix i assume "i < length (map replies h)"
    then have i: "i < 4" by (simp add: lenh)
    then consider "i = 0" | "i = 1" | "i = 2" | "i = 3" by linarith
    then show "map replies h ! i = [ [1, 3], [], [], []] ! i"
      by cases (simp_all add: lenh nodes)
  qed
  ultimately have "buildmessageTree threadMsgs = Some (roots, h) \<and> roots = [0, 2] \<and>
      map message h = threadMsgs \<and> map replies h = [ [1, 3], [], [], []]"
    using built roots by simp
  then have "\<exists>roots h. buildmessageTree threadMsgs = Some (roots, h) \<and> roots = [0, 2] \<and>
      map message h = threadMsgs \<and> map replies h = [ [1, 3], [], [], []]"
    by (intro exI)
  with distinct show ?thesis
    by (rule conjI)
qed

text \<open>
  C1 as stated fails. With two messages of the same id the node of the first is in no
  position and the node of the second is twice in the root list; and a message whose
  \<open>parentId\<close> is the empty string is a root although a message has that id.
\<close>

theorem buildmessageTree_placement_counterexample:
  "buildmessageTree dupMsgs =
     Some ([1, 1], [\<lparr>message = dupMsgs ! 0, replies = []\<rparr>, \<lparr>message = dupMsgs ! 1, replies = []\<rparr>]) \<and>
   count_list (positions ([1, 1],
     [\<lparr>message = dupMsgs ! 0, replies = []\<rparr>, \<lparr>message = dupMsgs ! 1, replies = []\<rparr>])) 0 = 0 \<and>
   count_list (positions ([1, 1],
     [\<lparr>message = dupMsgs ! 0, replies = []\<rparr>, \<lparr>message = dupMsgs ! 1, replies = []\<rparr>])) 1 = 2 \<and>
   parentId (emptyIdMsgs ! 1) = Some (id_m (emptyIdMsgs ! 0)) \<and>
   buildmessageTree emptyIdMsgs =
     Some ([0, 1],
       [\<lparr>message = emptyIdMsgs ! 0, replies = []\<rparr>, \<lparr>message = emptyIdMsgs ! 1, replies = []\<rparr>])"
  by (simp add: buildmessageTree_def hasParent_def pushReply_def positions_def dupMsgs_def
      emptyIdMsgs_def plainMessage_def js_def)

end
